theory Spec2Isabelle
  imports Main "HOL-Library.Word" "HOL-Library.AList"
begin

section \<open>Machine integers and time\<close>

text \<open>
  Go's \<open>int64\<close> is a 64-bit two's-complement word: \<open>+\<close>, \<open>-\<close> and unary minus wrap,
  and \<open><\<close> compares the signed readings (\<open>sint\<close>).

  A \<open>time.Time\<close> is modelled as an integer count of nanoseconds and a \<open>time.Duration\<close>
  as an integer number of nanoseconds. \<open>Time.Sub\<close> saturates at the ends of the
  \<open>Duration\<close> range, as the Go library documents.
\<close>

type_synonym int64 = "64 word"
type_synonym time = int
type_synonym duration = int

definition minDuration :: duration where
  "minDuration = - (2 ^ 63)"

definition maxDuration :: duration where
  "maxDuration = 2 ^ 63 - 1"

definition time_Add :: "time \<Rightarrow> duration \<Rightarrow> time" where
  "time_Add t d = t + d"

definition time_Before :: "time \<Rightarrow> time \<Rightarrow> bool" where
  "time_Before t u = (t < u)"

definition time_Sub :: "time \<Rightarrow> time \<Rightarrow> duration" where
  "time_Sub t u = max minDuration (min maxDuration (t - u))"

section \<open>OncePerDelta (the delta gate)\<close>

record OncePerDelta =
  delta :: int64
  lastVal :: int64

definition NewOncePerDelta :: "int64 \<Rightarrow> OncePerDelta" where
  "NewOncePerDelta d = \<lparr>delta = d, lastVal = 0\<rparr>"

text \<open>
  \<open>OncePerDelta.Do(val, fn)\<close>. The result is the gate after the critical section
  together with a flag that says whether \<open>fn()\<close> is called. \<open>fn\<close> is called by \<open>Do\<close>
  itself, after \<open>lastVal\<close> has been written and the mutex released.
\<close>

definition OncePerDelta_Do :: "int64 \<Rightarrow> OncePerDelta \<Rightarrow> OncePerDelta \<times> bool" where
  "OncePerDelta_Do val opd =
     (let diff = val - lastVal opd;
          diff = (if sint diff < 0 then - diff else diff)
      in if sint diff < sint (delta opd) then (opd, False)
         else (opd\<lparr>lastVal := val\<rparr>, True))"

definition OncePerDelta_Reset :: "int64 \<Rightarrow> OncePerDelta \<Rightarrow> OncePerDelta" where
  "OncePerDelta_Reset val opd = opd\<lparr>lastVal := val\<rparr>"

section \<open>OncePerDur (the coalescing throttle)\<close>

text \<open>
  A \<open>*time.Timer\<close> made by \<open>time.AfterFunc\<close>: the instant at which it is due and
  whether it is still armed. The runtime turns a delay \<open>d \<le> 0\<close> into "due now".
\<close>

record go_timer =
  due :: time
  armed :: bool

definition timer_when :: "time \<Rightarrow> duration \<Rightarrow> time" where
  "timer_when now d = (if d \<le> 0 then now else now + d)"

definition AfterFunc :: "time \<Rightarrow> duration \<Rightarrow> go_timer" where
  "AfterFunc now d = \<lparr>due = timer_when now d, armed = True\<rparr>"

definition timer_Reset :: "time \<Rightarrow> duration \<Rightarrow> go_timer \<Rightarrow> go_timer" where
  "timer_Reset now d t = t\<lparr>due := timer_when now d, armed := True\<rparr>"

definition timer_Stop :: "go_timer \<Rightarrow> go_timer" where
  "timer_Stop t = t\<lparr>armed := False\<rparr>"

text \<open>
  The struct \<open>OncePerDur\<close>. The type \<open>'f\<close> is the type of the submitted callbacks;
  \<open>None\<close> is Go's \<open>nil\<close>. The field \<open>last\<close> is called \<open>last_run\<close> here, since
  \<open>last\<close> is the list function of HOL.
\<close>

record 'f OncePerDur =
  dur :: duration
  last_run :: time
  timer :: "go_timer option"
  pending :: "'f option"
  isRunning :: bool

definition NewOncePerDur :: "duration \<Rightarrow> 'f OncePerDur" where
  "NewOncePerDur d = \<lparr>dur = d, last_run = 0, timer = None, pending = None, isRunning = False\<rparr>"

text \<open>
  \<open>OncePerDur.Do(f)\<close> with \<open>time.Now()\<close> reading \<open>now\<close>. The second component is
  \<open>Some f\<close> when the call ends in \<open>go op.runner(f)\<close>, and \<open>None\<close> when it returns from
  one of the two early exits.
\<close>

definition OncePerDur_Do :: "'f \<Rightarrow> time \<Rightarrow> 'f OncePerDur \<Rightarrow> 'f OncePerDur \<times> 'f option" where
  "OncePerDur_Do f now op =
     (if pending op \<noteq> None \<or> isRunning op then (op\<lparr>pending := Some f\<rparr>, None)
      else
        let next = time_Add (last_run op) (dur op) in
        if time_Before now next then
          (op\<lparr>pending := Some f,
              timer := Some (case timer op of
                               None \<Rightarrow> AfterFunc now (time_Sub now next)
                             | Some t \<Rightarrow> timer_Reset now (dur op) t)\<rparr>, None)
        else (op\<lparr>last_run := now, isRunning := True\<rparr>, Some f))"

definition OncePerDur_Reset :: "time \<Rightarrow> 'f OncePerDur \<Rightarrow> 'f OncePerDur" where
  "OncePerDur_Reset now op =
     op\<lparr>timer := map_option timer_Stop (timer op), pending := None, last_run := now\<rparr>"

text \<open>
  The critical section at the head of the \<open>for\<close> loop of \<open>runner\<close>, entered each time
  a callback has returned: \<open>None\<close> means the runner leaves, \<open>Some f\<close> is the callback it
  runs next.
\<close>

definition runner_next :: "time \<Rightarrow> 'f OncePerDur \<Rightarrow> 'f OncePerDur \<times> 'f option" where
  "runner_next now op =
     (case pending op of
        None \<Rightarrow> (op\<lparr>isRunning := False\<rparr>, None)
      | Some f \<Rightarrow> (op\<lparr>last_run := now, pending := None\<rparr>, Some f))"

text \<open>
  The critical section of \<open>handleTimer\<close>: \<open>None\<close> means it returns at once,
  \<open>Some f\<close> that it goes on to \<open>op.runner(f)\<close>.
\<close>

definition handleTimer :: "time \<Rightarrow> 'f OncePerDur \<Rightarrow> 'f OncePerDur \<times> 'f option" where
  "handleTimer now op =
     (case pending op of
        None \<Rightarrow> (op, None)
      | Some f \<Rightarrow> (op\<lparr>last_run := now, pending := None, isRunning := True\<rparr>, Some f))"

subsection \<open>The throttle under interleaving\<close>

text \<open>
  Every access to the fields of \<open>OncePerDur\<close> happens with \<open>op.mu\<close> held, so each
  critical section is one atomic step, and an execution of the throttle is a sequence
  of such steps in some order. Around the struct the system state records
  \<^item> \<open>handlers\<close>: the goroutines started by an expiry of the timer that have not yet
    entered the critical section of \<open>handleTimer\<close>;
  \<^item> \<open>executing\<close>: the callbacks being executed now, one for each goroutine that is
    inside \<open>runner\<close> and calling \<open>f()\<close>;
  \<^item> \<open>started\<close>: the history of every callback whose execution has begun, oldest first;
  \<^item> \<open>dropped\<close>: the history of every callback that was overwritten or cleared in the
    \<open>pending\<close> slot before it was taken out to run.
\<close>

record 'f throttle_sys =
  thr :: "'f OncePerDur"
  handlers :: nat
  executing :: "'f list"
  started :: "'f list"
  dropped :: "'f list"

datatype 'f event =
    EvDo 'f time          \<comment> \<open>a call \<open>Do(f)\<close> whose \<open>time.Now()\<close> reads the given time\<close>
  | EvTimerFire time      \<comment> \<open>the armed timer expires and starts \<open>handleTimer\<close> in a new goroutine\<close>
  | EvHandleTimer time    \<comment> \<open>a started \<open>handleTimer\<close> gets the mutex\<close>
  | EvRunComplete 'f time \<comment> \<open>the runner executing \<open>f\<close> sees it return and gets the mutex\<close>
  | EvReset time          \<comment> \<open>a call \<open>Reset()\<close>\<close>

definition opt_list :: "'a option \<Rightarrow> 'a list" where
  "opt_list x = (case x of None \<Rightarrow> [] | Some a \<Rightarrow> [a])"

definition sys_init :: "duration \<Rightarrow> 'f throttle_sys" where
  "sys_init d = \<lparr>thr = NewOncePerDur d, handlers = 0, executing = [], started = [], dropped = []\<rparr>"

text \<open>An event that cannot happen in the state it meets leaves the state as it is.\<close>

fun step :: "'f event \<Rightarrow> 'f throttle_sys \<Rightarrow> 'f throttle_sys" where
  "step (EvDo f now) s =
     (let (op', go) = OncePerDur_Do f now (thr s)
      in s\<lparr>thr := op',
            executing := executing s @ opt_list go,
            started := started s @ opt_list go,
            dropped := dropped s @ opt_list (pending (thr s))\<rparr>)"
| "step (EvTimerFire now) s =
     (case timer (thr s) of
        None \<Rightarrow> s
      | Some t \<Rightarrow>
          if armed t \<and> due t \<le> now
          then s\<lparr>thr := (thr s)\<lparr>timer := Some (t\<lparr>armed := False\<rparr>)\<rparr>,
                 handlers := Suc (handlers s)\<rparr>
          else s)"
| "step (EvHandleTimer now) s =
     (if handlers s = 0 then s
      else
        let (op', run) = handleTimer now (thr s)
        in s\<lparr>thr := op',
              handlers := handlers s - 1,
              executing := executing s @ opt_list run,
              started := started s @ opt_list run\<rparr>)"
| "step (EvRunComplete f now) s =
     (if f \<notin> set (executing s) then s
      else
        let (op', nxt) = runner_next now (thr s)
        in s\<lparr>thr := op',
              executing := remove1 f (executing s) @ opt_list nxt,
              started := started s @ opt_list nxt\<rparr>)"
| "step (EvReset now) s =
     s\<lparr>thr := OncePerDur_Reset now (thr s),
       dropped := dropped s @ opt_list (pending (thr s))\<rparr>"

definition run :: "'f event list \<Rightarrow> 'f throttle_sys \<Rightarrow> 'f throttle_sys" where
  "run evs s = fold step evs s"

fun submitted :: "'f event list \<Rightarrow> 'f list" where
  "submitted [] = []"
| "submitted (EvDo f now # evs) = f # submitted evs"
| "submitted (_ # evs) = submitted evs"

fun is_Reset :: "'f event \<Rightarrow> bool" where
  "is_Reset (EvReset now) = True"
| "is_Reset _ = False"

text \<open>
  The invariant of the interleaved throttle, relative to the list \<open>subs\<close> of the
  callbacks submitted so far.
\<close>

definition timer_armed :: "'f OncePerDur \<Rightarrow> bool" where
  "timer_armed op = (case timer op of None \<Rightarrow> False | Some t \<Rightarrow> armed t)"

definition sys_inv :: "'f list \<Rightarrow> 'f throttle_sys \<Rightarrow> bool" where
  "sys_inv subs s \<longleftrightarrow>
     length (executing s) \<le> 1 \<and>
     (isRunning (thr s) \<longleftrightarrow> executing s \<noteq> []) \<and>
     handlers s \<le> 1 \<and>
     (0 < handlers s \<or> timer_armed (thr s) \<longrightarrow> pending (thr s) \<noteq> None \<and> \<not> isRunning (thr s)) \<and>
     (0 < handlers s \<longrightarrow> \<not> timer_armed (thr s)) \<and>
     distinct (started s @ dropped s @ opt_list (pending (thr s))) \<and>
     set (started s) \<union> set (dropped s) \<union> set (opt_list (pending (thr s))) \<subseteq> set subs \<and>
     set (executing s) \<subseteq> set (started s)"

section \<open>Gauges and the registry\<close>

datatype panic = NilPointerDereference | HandlerPanic

definition metricsSubject :: string where
  "metricsSubject = ''.metrics''"

text \<open>
  The struct \<open>Gauge\<close>. The callbacks a gauge hands to its throttle are the closures
  \<open>func() { g.pub(val) }\<close>; such a closure is determined by the captured \<open>val\<close>, so the
  throttle of a gauge holds values of type \<open>int64\<close>. The back pointer \<open>m\<close> is left out:
  there is one registry.
\<close>

record Gauge =
  name :: string
  val :: int64
  oncePerDur :: "int64 OncePerDur"
  oncePerDelta :: OncePerDelta
  raddr :: string

text \<open>
  The struct \<open>Metrics\<close>. An edge (\<open>psyche.Interface\<close>) is identified by a number;
  the map \<open>edges\<close> is an association list read with \<open>map_of\<close>. A \<open>*Gauge\<close> is the
  position of the gauge in \<open>m.gauges\<close> (gauges are only ever made by \<open>NewGauge\<close>, which
  appends them there and never removes one); \<open>None\<close> is \<open>nil\<close>.
\<close>

record Metrics =
  edges :: "(string \<times> nat) list"
  gauges :: "Gauge list"

text \<open>
  What lies around the registry: for each edge the messages published on it, as pairs
  of subject and payload, oldest first; and the goroutines \<open>go op.runner(f)\<close> started by
  gauges, each as the gauge and the value its first callback captured.
\<close>

record world =
  reg :: Metrics
  out :: "nat \<Rightarrow> (string \<times> string) list"
  spawned :: "(nat \<times> int64) list"

definition New :: Metrics where
  "New = \<lparr>edges = [], gauges = []\<rparr>"

definition edge_Pub ::
  "nat \<Rightarrow> string \<Rightarrow> string \<Rightarrow> (nat \<Rightarrow> (string \<times> string) list) \<Rightarrow> nat \<Rightarrow> (string \<times> string) list" where
  "edge_Pub e subject payload ob = ob(e := ob e @ [(subject, payload)])"

text \<open>\<open>Metrics.pub(raddr, payload)\<close>.\<close>

definition Metrics_pub :: "string \<Rightarrow> string \<Rightarrow> world \<Rightarrow> world" where
  "Metrics_pub ra payload w =
     (if ra \<noteq> [] then
        (case map_of (edges (reg w)) ra of
           Some e \<Rightarrow> w\<lparr>out := edge_Pub e metricsSubject payload (out w)\<rparr>
         | None \<Rightarrow> w)
      else w\<lparr>out := fold (\<lambda>(k, e). edge_Pub e metricsSubject payload) (edges (reg w)) (out w)\<rparr>)"

text \<open>\<open>Attach\<close> without the subscription and the poller goroutine it starts, and \<open>detach\<close>.\<close>

definition Attach :: "nat \<Rightarrow> string \<Rightarrow> Metrics \<Rightarrow> Metrics" where
  "Attach edge remoteAddr m = m\<lparr>edges := AList.update remoteAddr edge (edges m)\<rparr>"

definition detach :: "nat \<Rightarrow> string \<Rightarrow> Metrics \<Rightarrow> Metrics" where
  "detach edge ra m =
     (if map_of (edges m) ra = Some edge then m\<lparr>edges := AList.delete ra (edges m)\<rparr> else m)"

text \<open>The verb \<open>%d\<close> of \<open>fmt.Sprintf\<close> on an \<open>int64\<close>.\<close>

fun digits :: "nat \<Rightarrow> string" where
  "digits n =
     (if n < 10 then [''0123456789'' ! n]
      else digits (n div 10) @ [''0123456789'' ! (n mod 10)])"

declare digits.simps [simp del]

definition format_int64 :: "int64 \<Rightarrow> string" where
  "format_int64 v =
     (if sint v < 0 then CHR ''-'' # digits (nat (- sint v)) else digits (nat (sint v)))"

definition Gauge_Val :: "Gauge \<Rightarrow> int64" where
  "Gauge_Val g = val g"

definition StringWithVal :: "Gauge \<Rightarrow> int64 \<Rightarrow> string" where
  "StringWithVal g v = name g @ ''='' @ format_int64 v"

definition NewGauge :: "string \<Rightarrow> duration \<Rightarrow> int64 \<Rightarrow> string \<Rightarrow> Metrics \<Rightarrow> nat option \<times> Metrics" where
  "NewGauge nm d dl ra m =
     (Some (length (gauges m)),
      m\<lparr>gauges := gauges m @
           [\<lparr>name = nm, val = 0, oncePerDur = NewOncePerDur d,
             oncePerDelta = NewOncePerDelta dl, raddr = ra\<rparr>]\<rparr>)"

definition Gauge_pub :: "Gauge \<Rightarrow> int64 \<Rightarrow> world \<Rightarrow> world" where
  "Gauge_pub g v w = Metrics_pub (raddr g) (StringWithVal g v) w"

text \<open>
  \<open>Gauge.Add(n)\<close> on the gauge itself: the gauge afterwards, and the callback for which
  a runner goroutine is started, if one is.
\<close>

definition Gauge_Add :: "int64 \<Rightarrow> time \<Rightarrow> Gauge \<Rightarrow> Gauge \<times> int64 option" where
  "Gauge_Add n now g =
     (if n = 0 then (g, None)
      else
        let v = val g + n;
            g1 = g\<lparr>val := v\<rparr>;
            (opd, allowed) = OncePerDelta_Do v (oncePerDelta g1);
            g2 = g1\<lparr>oncePerDelta := opd\<rparr>
        in if allowed then
             (let (op', go) = OncePerDur_Do v now (oncePerDur g2)
              in (g2\<lparr>oncePerDur := op'\<rparr>, go))
           else (g2, None))"

text \<open>
  The earlier \<open>Gauge.Add\<close> of the repository hands the closure
  \<open>func() { g.oncePerDelta.Do(val, ...) }\<close> to the throttle and asks the delta gate only
  when that closure runs.
\<close>

definition Gauge_Add_prior :: "int64 \<Rightarrow> time \<Rightarrow> Gauge \<Rightarrow> Gauge \<times> int64 option" where
  "Gauge_Add_prior n now g =
     (if n = 0 then (g, None)
      else
        let v = val g + n;
            g1 = g\<lparr>val := v\<rparr>;
            (op', go) = OncePerDur_Do v now (oncePerDur g1)
        in (g1\<lparr>oncePerDur := op'\<rparr>, go))"

text \<open>
  \<open>Add\<close>, \<open>Inc\<close>, \<open>Dec\<close> and \<open>Val\<close> through a \<open>*Gauge\<close>. On a \<open>nil\<close> receiver \<open>Add(0)\<close>
  returns before it touches the gauge, every other \<open>Add\<close> panics. A position that holds
  no gauge counts as \<open>nil\<close>.
\<close>

definition deref :: "Metrics \<Rightarrow> nat option \<Rightarrow> (nat \<times> Gauge) option" where
  "deref m r =
     (case r of
        None \<Rightarrow> None
      | Some i \<Rightarrow> if i < length (gauges m) then Some (i, gauges m ! i) else None)"

definition Add :: "nat option \<Rightarrow> int64 \<Rightarrow> time \<Rightarrow> world \<Rightarrow> panic + world" where
  "Add r n now w =
     (if n = 0 then Inr w
      else
        case deref (reg w) r of
          None \<Rightarrow> Inl NilPointerDereference
        | Some (i, g) \<Rightarrow>
            let (g', go) = Gauge_Add n now g
            in Inr (w\<lparr>reg := (reg w)\<lparr>gauges := (gauges (reg w))[i := g']\<rparr>,
                      spawned := spawned w @ map (Pair i) (opt_list go)\<rparr>))"

definition Inc :: "nat option \<Rightarrow> time \<Rightarrow> world \<Rightarrow> panic + world" where
  "Inc r now w = Add r 1 now w"

definition Dec :: "nat option \<Rightarrow> time \<Rightarrow> world \<Rightarrow> panic + world" where
  "Dec r now w = Add r (- 1) now w"

definition Val :: "nat option \<Rightarrow> world \<Rightarrow> panic + int64" where
  "Val r w =
     (case deref (reg w) r of
        None \<Rightarrow> Inl NilPointerDereference
      | Some (i, g) \<Rightarrow> Inr (Gauge_Val g))"

text \<open>
  The loop of \<open>pubMetrics\<close> over \<open>m.gauges\<close>: the text written to the builder and the
  gauges afterwards. \<open>clk i\<close> is what \<open>time.Now()\<close> reads inside the \<open>Reset\<close> of the gauge
  at position \<open>i\<close>.
\<close>

fun pubMetrics_loop :: "string \<Rightarrow> (nat \<Rightarrow> time) \<Rightarrow> nat \<Rightarrow> Gauge list \<Rightarrow> string \<times> Gauge list" where
  "pubMetrics_loop ra clk i [] = ([], [])"
| "pubMetrics_loop ra clk i (g # gs) =
     (let v = Gauge_Val g;
          line = (if raddr g = [] \<or> raddr g = ra then StringWithVal g v @ [CHR 0x0A] else []);
          g' = g\<lparr>oncePerDur := OncePerDur_Reset (clk i) (oncePerDur g),
                 oncePerDelta := OncePerDelta_Reset v (oncePerDelta g)\<rparr>;
          (b, gs') = pubMetrics_loop ra clk (Suc i) gs
      in (line @ b, g' # gs'))"

text \<open>
  \<open>pubMetrics(raddr)\<close>: \<open>m.edges[raddr]\<close> is the \<open>nil\<close> interface when the map has no
  such key, and the call of \<open>Pub\<close> on it panics; the gauges have been reset by then.
\<close>

definition pubMetrics :: "string \<Rightarrow> (nat \<Rightarrow> time) \<Rightarrow> world \<Rightarrow> panic option \<times> world" where
  "pubMetrics ra clk w =
     (let (b, gs') = pubMetrics_loop ra clk 0 (gauges (reg w));
          w1 = w\<lparr>reg := (reg w)\<lparr>gauges := gs'\<rparr>\<rparr>
      in case map_of (edges (reg w1)) ra of
           None \<Rightarrow> (Some NilPointerDereference, w1)
         | Some e \<Rightarrow> (None, w1\<lparr>out := edge_Pub e metricsSubject b (out w1)\<rparr>))"

section \<open>Instrumentation adapters\<close>

text \<open>
  \<open>InFlightMiddleware\<close>: the handler it returns, applied to one request. The inner
  handler \<open>next.ServeHTTP\<close> is any function of the world that returns or panics
  (\<open>Some p\<close>). The deferred \<open>gauge.Dec()\<close> runs on both ways out, and a panic of the inner
  handler goes on after it.
\<close>

definition InFlightMiddleware ::
  "nat option \<Rightarrow> (world \<Rightarrow> panic option \<times> world) \<Rightarrow> time \<Rightarrow> time \<Rightarrow> world \<Rightarrow> panic option \<times> world" where
  "InFlightMiddleware gauge next now1 now2 w =
     (case Inc gauge now1 w of
        Inl p \<Rightarrow> (Some p, w)
      | Inr w1 \<Rightarrow>
          let (r, w2) = next w1
          in case Dec gauge now2 w2 of
               Inl p \<Rightarrow> (Some p, w2)
             | Inr w3 \<Rightarrow> (r, w3))"

text \<open>
  An inner handler leaves gauge \<open>i\<close> alone when it keeps the gauge registered and hands
  back the value it found in it.
\<close>

definition leaves_gauge :: "nat \<Rightarrow> (world \<Rightarrow> panic option \<times> world) \<Rightarrow> bool" where
  "leaves_gauge i next \<longleftrightarrow>
     (\<forall>w. i < length (gauges (reg w)) \<longrightarrow>
            i < length (gauges (reg (snd (next w))))
          \<and> val (gauges (reg (snd (next w))) ! i) = val (gauges (reg w) ! i))"

record conn =
  RemoteAddr :: string

record metricsConn =
  Conn :: "conn option"
  sentTotal :: "nat option"
  receivedTotal :: "nat option"
  sentThis :: "nat option"
  receivedThis :: "nat option"

text \<open>
  \<open>metricsConn.Write\<close> and \<open>Read\<close>. The pair \<open>res\<close> is what the wrapped connection's
  \<open>Write\<close> (or \<open>Read\<close>) returned: the byte count \<open>n\<close>, a 64-bit \<open>int\<close> on the build
  target \<open>amd64\<close>, and the error.
\<close>

definition metricsConn_Write ::
  "int64 \<times> 'e option \<Rightarrow> time \<Rightarrow> time \<Rightarrow> metricsConn \<Rightarrow> world \<Rightarrow> panic + ((int64 \<times> 'e option) \<times> world)" where
  "metricsConn_Write res now1 now2 mc w =
     (case Add (sentTotal mc) (fst res) now1 w of
        Inl p \<Rightarrow> Inl p
      | Inr w1 \<Rightarrow>
          (case Add (sentThis mc) (fst res) now2 w1 of
             Inl p \<Rightarrow> Inl p
           | Inr w2 \<Rightarrow> Inr (res, w2)))"

definition metricsConn_Read ::
  "int64 \<times> 'e option \<Rightarrow> time \<Rightarrow> time \<Rightarrow> metricsConn \<Rightarrow> world \<Rightarrow> panic + ((int64 \<times> 'e option) \<times> world)" where
  "metricsConn_Read res now1 now2 mc w =
     (case Add (receivedTotal mc) (fst res) now1 w of
        Inl p \<Rightarrow> Inl p
      | Inr w1 \<Rightarrow>
          (case Add (receivedThis mc) (fst res) now2 w1 of
             Inl p \<Rightarrow> Inl p
           | Inr w2 \<Rightarrow> Inr (res, w2)))"

text \<open>
  \<open>metricsListener.Accept\<close>. The pair \<open>res\<close> is what the wrapped listener's \<open>Accept\<close>
  returned; a \<open>nil\<close> connection is \<open>None\<close>. The fields \<open>sentTotal\<close> and \<open>receivedTotal\<close>
  of the listener carry the prefix \<open>ln_\<close>, the connection having fields of the same
  names.
\<close>

record metricsListener =
  ln_sentTotal :: "nat option"
  ln_receivedTotal :: "nat option"
  connGauges :: "string \<Rightarrow> world \<Rightarrow> (nat option \<times> nat option) \<times> world"

definition metricsListener_Accept ::
  "conn option \<times> 'e option \<Rightarrow> metricsListener \<Rightarrow> world \<Rightarrow> panic + ((metricsConn \<times> 'e option) \<times> world)" where
  "metricsListener_Accept res mln w =
     (case fst res of
        None \<Rightarrow> Inl NilPointerDereference
      | Some c \<Rightarrow>
          let ((sent, received), w') = connGauges mln (RemoteAddr c) w
          in Inr ((\<lparr>Conn = Some c,
                     sentTotal = ln_sentTotal mln,
                     receivedTotal = ln_receivedTotal mln,
                     sentThis = sent,
                     receivedThis = received\<rparr>, snd res), w'))"

text \<open>
  The earlier \<open>Accept\<close> of the repository, with one pair of gauges: it wraps whatever the
  listener returned and passes the error on.
\<close>

record metricsConn_prior =
  prior_Conn :: "conn option"
  prior_sent :: "nat option"
  prior_received :: "nat option"

definition metricsListener_Accept_prior ::
  "conn option \<times> 'e option \<Rightarrow> nat option \<Rightarrow> nat option \<Rightarrow> metricsConn_prior \<times> 'e option" where
  "metricsListener_Accept_prior res sent received =
     (\<lparr>prior_Conn = fst res, prior_sent = sent, prior_received = received\<rparr>, snd res)"

section \<open>The server's registry\<close>

text \<open>
  The gauges \<open>main\<close> registers, in the order in which it registers them, and the
  factory of per-connection gauges it hands to \<open>SentReceivedMiddleware\<close>
  (\<open>time.Second\<close> is \<open>10 ^ 9\<close> nanoseconds).
\<close>

definition no_messages :: "nat \<Rightarrow> (string \<times> string) list" where
  "no_messages e = []"

definition fixed_clock :: "time \<Rightarrow> nat \<Rightarrow> time" where
  "fixed_clock t i = t"

definition main_registry :: Metrics where
  "main_registry =
     snd (NewGauge ''bytes_received'' 1000000000 0 []
       (snd (NewGauge ''bytes_sent'' 1000000000 128 []
         (snd (NewGauge ''requests_in_flight'' 0 0 [] New)))))"

definition main_world :: world where
  "main_world = \<lparr>reg = main_registry, out = no_messages, spawned = []\<rparr>"

definition main_connGauges :: "string \<Rightarrow> world \<Rightarrow> (nat option \<times> nat option) \<times> world" where
  "main_connGauges ra w =
     (let (sent, m1) = NewGauge ''bytes_sent{conn=this}'' 1000000000 128 ra (reg w);
          (received, m2) = NewGauge ''bytes_received{conn=this}'' 1000000000 0 ra m1
      in ((sent, received), w\<lparr>reg := m2\<rparr>))"

definition main_listener :: metricsListener where
  "main_listener =
     \<lparr>ln_sentTotal = Some 1, ln_receivedTotal = Some 2, connGauges = main_connGauges\<rparr>"

text \<open>
  The connection that \<open>Accept\<close> makes of a client at \<open>10.0.0.7:4242\<close> on the server's
  listener, and the world after that \<open>Accept\<close>.
\<close>

definition accepted_conn :: metricsConn where
  "accepted_conn =
     \<lparr>Conn = Some \<lparr>RemoteAddr = ''10.0.0.7:4242''\<rparr>, sentTotal = Some 1,
      receivedTotal = Some 2, sentThis = Some 3, receivedThis = Some 4\<rparr>"

definition accepted_world :: world where
  "accepted_world = snd (main_connGauges ''10.0.0.7:4242'' main_world)"

text \<open>
  A registry at rest with a global gauge \<open>G1 = 5\<close>, a gauge \<open>G2 = 3\<close> of scope \<open>A\<close> and a
  gauge \<open>G3 = 7\<close> of scope \<open>B\<close> whose delta gate, with threshold 100, has let nothing
  through yet; edge 1 is attached under \<open>A\<close> and edge 2 under \<open>B\<close>.
\<close>

definition poll_world :: world where
  "poll_world =
     \<lparr>reg = \<lparr>edges = [(''A'', 1), (''B'', 2)],
              gauges =
                [\<lparr>name = ''G1'', val = 5,
                  oncePerDur = \<lparr>dur = 10, last_run = 20, timer = None, pending = None,
                                 isRunning = False\<rparr>,
                  oncePerDelta = \<lparr>delta = 0, lastVal = 5\<rparr>, raddr = []\<rparr>,
                 \<lparr>name = ''G2'', val = 3,
                  oncePerDur = \<lparr>dur = 10, last_run = 30, timer = None, pending = None,
                                 isRunning = False\<rparr>,
                  oncePerDelta = \<lparr>delta = 0, lastVal = 3\<rparr>, raddr = ''A''\<rparr>,
                 \<lparr>name = ''G3'', val = 7,
                  oncePerDur = NewOncePerDur 10,
                  oncePerDelta = \<lparr>delta = 100, lastVal = 0\<rparr>, raddr = ''B''\<rparr>]\<rparr>,
      out = no_messages, spawned = []\<rparr>"

section \<open>Properties of the delta gate\<close>

lemma wrapped_min_magnitude:
  fixes v l :: int64
  assumes "v - l = - (2 ^ 63)"
  shows "\<bar>sint v - sint l\<bar> = 2 ^ 63"
proof -
  have "sint (v - l) = signed_take_bit 63 (sint v - sint l)"
    by (simp add: sint_word_ariths)
  then have e: "signed_take_bit 63 (sint v - sint l) = - (2 ^ 63)"
    using assms by simp
  have bv: "- (2 ^ 63) \<le> sint v" "sint v < 2 ^ 63"
    using sint_range_size [of v] by (simp_all add: word_size)
  have bl: "- (2 ^ 63) \<le> sint l" "sint l < 2 ^ 63"
    using sint_range_size [of l] by (simp_all add: word_size)
  from e have "(18446744073709551616::int) dvd sint v - sint l + 9223372036854775808"
    by (auto simp add: signed_take_bit_eq_take_bit_shift take_bit_eq_mod split: if_splits)
  then obtain k where k: "sint v - sint l + 9223372036854775808 = 18446744073709551616 * k"
    by (auto simp: dvd_def)
  with bv bl have "k = 0 \<or> k = 1" by auto
  with k show ?thesis by auto
qed

lemma sint_int64_less: "sint (T :: int64) < 2 ^ 63"
  using sint_range_size [of T] by (simp add: word_size)

lemma sint_sub_exact:
  fixes v l :: int64
  assumes "- (2 ^ 63) \<le> sint v - sint l" and "sint v - sint l < 2 ^ 63"
  shows "sint (v - l) = sint v - sint l"
  using assms by (simp add: sint_word_ariths signed_take_bit_int_eq_self)

lemma sint_neg_exact:
  fixes d :: int64
  assumes "- (2 ^ 63) < sint d"
  shows "sint (- d) = - sint d"
proof -
  have "sint d < 2 ^ 63" by (rule sint_int64_less)
  then show ?thesis using assms
    by (simp add: sint_word_ariths signed_take_bit_int_eq_self)
qed

text \<open>
  Where the subtraction \<open>val - lastVal\<close> does not leave the \<open>int64\<close> range, the gate
  decides exactly by the absolute difference.
\<close>

lemma delta_gate_exact_without_overflow:
  assumes "\<bar>sint v - sint (lastVal opd)\<bar> < 2 ^ 63"
  shows "snd (OncePerDelta_Do v opd) \<longleftrightarrow> sint (delta opd) \<le> \<bar>sint v - sint (lastVal opd)\<bar>"
proof -
  have e: "sint (v - lastVal opd) = sint v - sint (lastVal opd)"
    using assms by (intro sint_sub_exact) auto
  have n: "sint (- (v - lastVal opd)) = - (sint v - sint (lastVal opd))"
    using assms e sint_neg_exact [of "v - lastVal opd"] by auto
  show ?thesis using e n by (auto simp: OncePerDelta_Do_def Let_def)
qed

lemma delta_gate_allow_sets_lastVal:
  "snd (OncePerDelta_Do v opd) \<Longrightarrow> lastVal (fst (OncePerDelta_Do v opd)) = v"
  by (simp add: OncePerDelta_Do_def Let_def split: if_splits)

lemma delta_gate_Reset_lastVal: "lastVal (OncePerDelta_Reset v opd) = v"
  by (simp add: OncePerDelta_Reset_def)

text \<open>
  Even the threshold 0 does not always let a change through: a wrapped difference of
  \<open>- 2 ^ 63\<close> stays negative under negation and is below 0.
\<close>

lemma delta_gate_threshold_zero_min:
  "OncePerDelta_Do 9223372036854775807 \<lparr>delta = 0, lastVal = - 1\<rparr>
     = (\<lparr>delta = 0, lastVal = - 1\<rparr>, False)"
  by (simp add: OncePerDelta_Do_def)

text \<open>
  Claim C3 (the gate calls the callback exactly when the absolute difference between the
  value and the last allowed value reaches the threshold): the code breaks it where the
  \<open>int64\<close> subtraction wraps. With last allowed value \<open>- 2 ^ 63\<close>, new value
  \<open>2 ^ 63 - 1\<close> and threshold 5, the change has magnitude \<open>2 ^ 64 - 1\<close>, yet the wrapped
  difference is \<open>- 1\<close>, its negation 1 is below 5, and the callback is not called.
\<close>

theorem delta_gate_overflow_drops_large_change:
  "OncePerDelta_Do 9223372036854775807 \<lparr>delta = 5, lastVal = - 9223372036854775808\<rparr>
     = (\<lparr>delta = 5, lastVal = - 9223372036854775808\<rparr>, False)
   \<and> sint (5 :: int64)
       \<le> \<bar>sint (9223372036854775807 :: int64) - sint (- 9223372036854775808 :: int64)\<bar>"
  by (simp add: OncePerDelta_Do_def)

text \<open>
  Claim C10: \<open>Do\<close> takes the absolute difference by negating the wrapped difference
  \<open>val - lastVal\<close> when it is negative. Whenever that wrapped difference is \<open>- 2 ^ 63\<close>,
  its negation is still negative, so for every threshold above 0 the callback is not
  called and the gate is left as it was, although the magnitude of the change,
  \<open>2 ^ 63\<close>, is above every \<open>int64\<close> threshold.
\<close>

theorem delta_gate_min_int64_suppressed:
  assumes "v - lastVal opd = - (2 ^ 63)" and "0 < sint (delta opd)"
  shows "sint (- (v - lastVal opd)) < 0
       \<and> OncePerDelta_Do v opd = (opd, False)
       \<and> sint (delta opd) < \<bar>sint v - sint (lastVal opd)\<bar>"
proof -
  have a: "sint (- (v - lastVal opd)) < 0" using assms(1) by simp
  have b: "OncePerDelta_Do v opd = (opd, False)"
    using assms by (simp add: OncePerDelta_Do_def Let_def)
  have c: "sint (delta opd) < \<bar>sint v - sint (lastVal opd)\<bar>"
    using wrapped_min_magnitude [OF assms(1)] sint_int64_less [of "delta opd"] by simp
  from a b c show ?thesis by simp
qed

theorem delta_gate_min_int64_suppressed_witness:
  "(9223372036854775807 :: int64) - lastVal \<lparr>delta = 1, lastVal = - 1\<rparr> = - (2 ^ 63)
   \<and> 0 < sint (delta \<lparr>delta = 1, lastVal = - 1\<rparr>)
   \<and> OncePerDelta_Do 9223372036854775807 \<lparr>delta = 1, lastVal = - 1\<rparr>
       = (\<lparr>delta = 1, lastVal = - 1\<rparr>, False)
   \<and> sint (delta \<lparr>delta = 1, lastVal = - 1\<rparr>)
       < \<bar>sint (9223372036854775807 :: int64) - sint (lastVal \<lparr>delta = 1, lastVal = - 1\<rparr>)\<bar>"
  using delta_gate_min_int64_suppressed [of 9223372036854775807 "\<lparr>delta = 1, lastVal = - 1\<rparr>"]
  by simp

section \<open>Properties of the throttle\<close>

text \<open>
  Claim C1 (a call \<open>Do(f)\<close> that finds nothing pending or running inside the window
  stores \<open>f\<close>, returns without running it and arms the timer for \<open>last + dur\<close>): the code
  does store \<open>f\<close> as pending and returns without running it, but it never arms the timer
  for \<open>last + dur\<close>. The first arming passes the delay \<open>now.Sub(next)\<close>, which is
  negative, so the timer is due at once, at \<open>now\<close>, before \<open>last + dur\<close>; and where a
  timer object exists already the code re-arms it with the whole \<open>dur\<close>, counted from
  \<open>now\<close>.
\<close>

theorem Do_arms_timer_off_deadline:
  assumes "pending op = None" and "\<not> isRunning op"
    and "time_Before now (time_Add (last_run op) (dur op))"
  shows "pending (fst (OncePerDur_Do f now op)) = Some f
       \<and> snd (OncePerDur_Do f now op) = None
       \<and> time_Sub now (time_Add (last_run op) (dur op)) < 0
       \<and> timer (fst (OncePerDur_Do f now op))
           = Some (case timer op of
                     None \<Rightarrow> \<lparr>due = now, armed = True\<rparr>
                   | Some t \<Rightarrow> t\<lparr>due := timer_when now (dur op), armed := True\<rparr>)
       \<and> now < time_Add (last_run op) (dur op)"
  using assms
  by (simp add: OncePerDur_Do_def time_Add_def time_Before_def time_Sub_def AfterFunc_def
        timer_Reset_def timer_when_def minDuration_def maxDuration_def Let_def
        split: option.splits)

text \<open>
  With \<open>dur = 10\<close>, \<open>last = 100\<close> and \<open>now = 104\<close> the timer ought to be due at 110; the
  first arming makes it due at 104, a re-arming at 114.
\<close>

theorem Do_arms_timer_off_deadline_witness:
  "pending \<lparr>dur = 10, last_run = 100, timer = None, pending = None :: nat option,
            isRunning = False\<rparr> = None
   \<and> \<not> isRunning \<lparr>dur = 10, last_run = 100, timer = None, pending = None :: nat option,
                   isRunning = False\<rparr>
   \<and> time_Before 104 (time_Add 100 10)
   \<and> OncePerDur_Do (1::nat) 104
        \<lparr>dur = 10, last_run = 100, timer = None, pending = None, isRunning = False\<rparr>
      = (\<lparr>dur = 10, last_run = 100, timer = Some \<lparr>due = 104, armed = True\<rparr>,
          pending = Some 1, isRunning = False\<rparr>, None)
   \<and> time_Sub 104 (time_Add 100 10) = - 6
   \<and> OncePerDur_Do (1::nat) 104
        \<lparr>dur = 10, last_run = 100, timer = Some \<lparr>due = 50, armed = False\<rparr>,
         pending = None, isRunning = False\<rparr>
      = (\<lparr>dur = 10, last_run = 100, timer = Some \<lparr>due = 114, armed = True\<rparr>,
          pending = Some 1, isRunning = False\<rparr>, None)
   \<and> time_Add 100 10 = 110"
  using Do_arms_timer_off_deadline
          [of "\<lparr>dur = 10, last_run = 100, timer = None, pending = None :: nat option,
                isRunning = False\<rparr>" 104 1]
  by (simp add: OncePerDur_Do_def time_Add_def time_Before_def time_Sub_def AfterFunc_def
        timer_Reset_def timer_when_def minDuration_def maxDuration_def Let_def)

subsection \<open>The invariant under interleaving\<close>

lemma inv_init: "sys_inv [] (sys_init d)"
  by (simp add: sys_inv_def sys_init_def NewOncePerDur_def timer_armed_def opt_list_def)

lemma inv_mono: "sys_inv subs s \<Longrightarrow> set subs \<subseteq> set subs' \<Longrightarrow> sys_inv subs' s"
  unfolding sys_inv_def by blast

lemma single_exec: "length xs \<le> 1 \<Longrightarrow> f \<in> set xs \<Longrightarrow> xs = [f]"
  by (cases xs) auto

lemma inv_Do:
  assumes inv: "sys_inv subs s" and fresh: "f \<notin> set subs"
  shows "sys_inv (f # subs) (step (EvDo f now) s)"
proof (cases "pending (thr s) \<noteq> None \<or> isRunning (thr s)")
  case True
  then have st: "step (EvDo f now) s
      = s\<lparr>thr := (thr s)\<lparr>pending := Some f\<rparr>, dropped := dropped s @ opt_list (pending (thr s))\<rparr>"
    by (simp add: OncePerDur_Do_def opt_list_def)
  show ?thesis
  proof (cases "pending (thr s)")
    case None
    with True inv fresh show ?thesis unfolding st
      by (auto simp: sys_inv_def timer_armed_def opt_list_def)
  next
    case (Some g)
    with True inv fresh show ?thesis unfolding st
      by (auto simp: sys_inv_def timer_armed_def opt_list_def)
  qed
next
  case False
  then have idle: "pending (thr s) = None" "\<not> isRunning (thr s)" by auto
  with inv have quiet: "handlers s = 0" "\<not> timer_armed (thr s)" "executing s = []"
    by (auto simp: sys_inv_def)
  show ?thesis
  proof (cases "time_Before now (time_Add (last_run (thr s)) (dur (thr s)))")
    case True
    with idle have st: "step (EvDo f now) s
      = s\<lparr>thr := (thr s)\<lparr>pending := Some f,
              timer := Some (case timer (thr s) of
                               None \<Rightarrow> AfterFunc now (time_Sub now (time_Add (last_run (thr s)) (dur (thr s))))
                             | Some t \<Rightarrow> timer_Reset now (dur (thr s)) t)\<rparr>\<rparr>"
      by (simp add: OncePerDur_Do_def opt_list_def Let_def)
    from inv fresh idle quiet show ?thesis unfolding st
      by (auto simp: sys_inv_def timer_armed_def opt_list_def)
  next
    case False
    with idle have st: "step (EvDo f now) s
      = s\<lparr>thr := (thr s)\<lparr>last_run := now, isRunning := True\<rparr>,
           executing := executing s @ [f], started := started s @ [f]\<rparr>"
      by (simp add: OncePerDur_Do_def opt_list_def Let_def)
    from inv fresh idle quiet show ?thesis unfolding st
      by (auto simp: sys_inv_def timer_armed_def opt_list_def)
  qed
qed


lemma inv_TimerFire:
  assumes inv: "sys_inv subs s"
  shows "sys_inv subs (step (EvTimerFire now) s)"
proof (cases "timer (thr s)")
  case None
  with inv show ?thesis by simp
next
  case (Some t)
  show ?thesis
  proof (cases "armed t \<and> due t \<le> now")
    case False
    with Some inv show ?thesis by auto
  next
    case True
    with Some have arm: "timer_armed (thr s)" by (simp add: timer_armed_def)
    with inv have h: "handlers s = 0" by (auto simp: sys_inv_def)
    from Some True have st: "step (EvTimerFire now) s
        = s\<lparr>thr := (thr s)\<lparr>timer := Some (t\<lparr>armed := False\<rparr>)\<rparr>, handlers := Suc (handlers s)\<rparr>"
      by simp
    from inv arm h show ?thesis unfolding st
      by (auto simp: sys_inv_def timer_armed_def)
  qed
qed

lemma inv_HandleTimer:
  assumes inv: "sys_inv subs s"
  shows "sys_inv subs (step (EvHandleTimer now) s)"
proof (cases "handlers s = 0")
  case True
  with inv show ?thesis by simp
next
  case False
  with inv have h: "handlers s = 1" by (auto simp: sys_inv_def)
  with inv obtain g where g: "pending (thr s) = Some g" and idle: "\<not> isRunning (thr s)"
    and quiet: "\<not> timer_armed (thr s)" "executing s = []"
    by (auto simp: sys_inv_def)
  from h g have st: "step (EvHandleTimer now) s
      = s\<lparr>thr := (thr s)\<lparr>last_run := now, pending := None, isRunning := True\<rparr>,
           handlers := 0, executing := executing s @ [g], started := started s @ [g]\<rparr>"
    by (simp add: handleTimer_def opt_list_def)
  from inv h g idle quiet show ?thesis unfolding st
    by (auto simp: sys_inv_def timer_armed_def opt_list_def)
qed

lemma inv_RunComplete:
  assumes inv: "sys_inv subs s"
  shows "sys_inv subs (step (EvRunComplete f now) s)"
proof (cases "f \<in> set (executing s)")
  case False
  with inv show ?thesis by simp
next
  case True
  with inv have ex: "executing s = [f]" by (auto simp: sys_inv_def intro: single_exec)
  with inv have running: "isRunning (thr s)" by (auto simp: sys_inv_def)
  with inv have quiet: "handlers s = 0" "\<not> timer_armed (thr s)" by (auto simp: sys_inv_def)
  show ?thesis
  proof (cases "pending (thr s)")
    case None
    with ex have st: "step (EvRunComplete f now) s
        = s\<lparr>thr := (thr s)\<lparr>isRunning := False\<rparr>, executing := [], started := started s\<rparr>"
      by (simp add: runner_next_def opt_list_def)
    from inv None quiet show ?thesis unfolding st
      by (auto simp: sys_inv_def timer_armed_def opt_list_def)
  next
    case (Some g)
    with ex have st: "step (EvRunComplete f now) s
        = s\<lparr>thr := (thr s)\<lparr>last_run := now, pending := None\<rparr>,
             executing := [g], started := started s @ [g]\<rparr>"
      by (simp add: runner_next_def opt_list_def)
    from inv Some quiet running show ?thesis unfolding st
      by (auto simp: sys_inv_def timer_armed_def opt_list_def)
  qed
qed

lemma inv_step:
  assumes "sys_inv subs s" and "\<not> is_Reset e" and "distinct (submitted [e] @ subs)"
  shows "sys_inv (submitted [e] @ subs) (step e s)"
proof (cases e)
  case (EvDo f now)
  with assms show ?thesis using inv_Do [of subs s f now] by simp
next
  case (EvTimerFire now)
  with assms show ?thesis using inv_TimerFire [of subs s now] by simp
next
  case (EvHandleTimer now)
  with assms show ?thesis using inv_HandleTimer [of subs s now] by simp
next
  case (EvRunComplete f now)
  with assms show ?thesis using inv_RunComplete [of subs s f now] by simp
next
  case (EvReset now)
  with assms show ?thesis by simp
qed

lemma submitted_append: "submitted (xs @ ys) = submitted xs @ submitted ys"
  by (induction xs rule: submitted.induct) simp_all

lemma run_snoc: "run (evs @ [e]) s = step e (run evs s)"
  by (simp add: run_def)

lemma inv_run:
  assumes "distinct (submitted evs)" and "list_all (\<lambda>e. \<not> is_Reset e) evs"
  shows "sys_inv (rev (submitted evs)) (run evs (sys_init d))"
  using assms
proof (induction evs rule: rev_induct)
  case Nil
  show ?case using inv_init [of d] by (simp add: run_def)
next
  case (snoc e evs)
  then have ih: "sys_inv (rev (submitted evs)) (run evs (sys_init d))"
    by (simp add: submitted_append)
  from snoc.prems have d: "distinct (submitted [e] @ rev (submitted evs))"
    by (auto simp: submitted_append)
  from snoc.prems have nr: "\<not> is_Reset e" by simp
  have "sys_inv (submitted [e] @ rev (submitted evs)) (step e (run evs (sys_init d)))"
    by (rule inv_step [OF ih nr d])
  moreover have "submitted [e] @ rev (submitted evs) = rev (submitted (evs @ [e]))"
    by (cases e) (simp_all add: submitted_append)
  ultimately show ?case by (simp add: run_snoc)
qed



text \<open>
  Claim C2: in every interleaving of calls of \<open>Do\<close> (with callbacks told apart, so
  pairwise distinct), expiries of the timer, entries of \<open>handleTimer\<close> and completions of
  callbacks, started from a new throttle: at most one callback is executing; no callback
  has begun execution twice; no callback that was overwritten in the pending slot has
  ever begun execution; and a call of \<open>Do\<close> that meets a pending or running callback only
  writes its own callback into the pending slot, discarding the one that was there, and
  starts nothing.
\<close>

theorem throttle_single_flight_last_write_wins:
  assumes "distinct (submitted evs)" and "list_all (\<lambda>e. \<not> is_Reset e) evs"
  shows "let s = run evs (sys_init d) in
           length (executing s) \<le> 1
         \<and> distinct (started s)
         \<and> set (dropped s) \<inter> set (started s) = {}
         \<and> (pending (thr s) \<noteq> None \<or> isRunning (thr s) \<longrightarrow>
              step (EvDo f now) s
                = s\<lparr>thr := (thr s)\<lparr>pending := Some f\<rparr>,
                     dropped := dropped s @ opt_list (pending (thr s))\<rparr>)"
proof -
  define s where "s = run evs (sys_init d)"
  have inv: "sys_inv (rev (submitted evs)) s"
    unfolding s_def by (rule inv_run [OF assms])
  have a: "length (executing s) \<le> 1" using inv by (simp add: sys_inv_def)
  have b: "distinct (started s)" using inv by (simp add: sys_inv_def)
  have c: "set (dropped s) \<inter> set (started s) = {}" using inv by (auto simp: sys_inv_def)
  have e: "pending (thr s) \<noteq> None \<or> isRunning (thr s) \<longrightarrow>
              step (EvDo f now) s
                = s\<lparr>thr := (thr s)\<lparr>pending := Some f\<rparr>,
                     dropped := dropped s @ opt_list (pending (thr s))\<rparr>"
    by (simp add: OncePerDur_Do_def opt_list_def)
  from a b c e show ?thesis unfolding s_def [symmetric] Let_def by blast
qed


theorem throttle_single_flight_last_write_wins_witness:
  "distinct (submitted [EvDo (1::nat) 100, EvDo 2 101, EvDo 3 102, EvRunComplete 1 103,
                        EvDo 4 104])
   \<and> list_all (\<lambda>e. \<not> is_Reset e)
        [EvDo (1::nat) 100, EvDo 2 101, EvDo 3 102, EvRunComplete 1 103, EvDo 4 104]
   \<and> (let s = run [EvDo (1::nat) 100, EvDo 2 101, EvDo 3 102, EvRunComplete 1 103, EvDo 4 104]
                 (sys_init 10) in
           length (executing s) \<le> 1
         \<and> distinct (started s)
         \<and> set (dropped s) \<inter> set (started s) = {}
         \<and> (pending (thr s) \<noteq> None \<or> isRunning (thr s) \<longrightarrow>
              step (EvDo 5 105) s
                = s\<lparr>thr := (thr s)\<lparr>pending := Some 5\<rparr>,
                     dropped := dropped s @ opt_list (pending (thr s))\<rparr>))"
proof -
  have h1: "distinct (submitted [EvDo (1::nat) 100, EvDo 2 101, EvDo 3 102, EvRunComplete 1 103,
                        EvDo 4 104])"
    by simp
  have h2: "list_all (\<lambda>e. \<not> is_Reset e)
        [EvDo (1::nat) 100, EvDo 2 101, EvDo 3 102, EvRunComplete 1 103, EvDo 4 104]"
    by simp
  from throttle_single_flight_last_write_wins [OF h1 h2, of 10 5 105] h1 h2
  show ?thesis by blast
qed

text \<open>
  What that interleaving leaves behind: callback 3 runs after 1, callback 2 was
  overwritten by 3 and never ran, and 4 waits in the pending slot.
\<close>

lemma throttle_example_run:
  "run [EvDo (1::nat) 100, EvDo 2 101, EvDo 3 102, EvRunComplete 1 103, EvDo 4 104] (sys_init 10)
   = \<lparr>thr = \<lparr>dur = 10, last_run = 103, timer = None, pending = Some 4, isRunning = True\<rparr>,
      handlers = 0, executing = [3], started = [1, 3], dropped = [2]\<rparr>"
  by (simp add: run_def sys_init_def NewOncePerDur_def OncePerDur_Do_def runner_next_def
        opt_list_def time_Add_def time_Before_def Let_def)

text \<open>
  The claim is about \<open>Do\<close>, the timer and the runner only. With \<open>Reset\<close> among the events
  the bound on the executing callbacks is lost: a \<open>handleTimer\<close> that was started before
  a \<open>Reset\<close> and enters after the next \<open>Do\<close> runs callback 3 while the timer is armed
  again, and that timer starts a second runner for callback 4.
\<close>

lemma reset_breaks_single_flight:
  "executing (run [EvDo (1::nat) 100, EvRunComplete 1 101, EvDo 2 102, EvTimerFire 102,
                   EvReset 103, EvDo 3 104, EvHandleTimer 105, EvDo 4 106,
                   EvTimerFire 114, EvHandleTimer 115] (sys_init 10)) = [3, 4]"
  by (simp add: run_def sys_init_def NewOncePerDur_def OncePerDur_Do_def runner_next_def
        handleTimer_def opt_list_def time_Add_def time_Before_def time_Sub_def AfterFunc_def
        timer_Reset_def timer_Stop_def OncePerDur_Reset_def
        timer_when_def minDuration_def maxDuration_def Let_def)

section \<open>Properties of gauges\<close>

lemma Gauge_Add_val: "val (fst (Gauge_Add n now g)) = val g + n"
  by (simp add: Gauge_Add_def Let_def split: prod.splits)

lemma Add_valid:
  assumes "i < length (gauges (reg w))"
  shows "\<exists>w'. Add (Some i) n now w = Inr w'
           \<and> length (gauges (reg w')) = length (gauges (reg w))
           \<and> val (gauges (reg w') ! i) = val (gauges (reg w) ! i) + n
           \<and> (\<forall>j. j \<noteq> i \<longrightarrow> gauges (reg w') ! j = gauges (reg w) ! j)"
proof (cases "n = 0")
  case True
  then show ?thesis by (simp add: Add_def)
next
  case False
  obtain g' go where g: "Gauge_Add n now (gauges (reg w) ! i) = (g', go)"
    by (cases "Gauge_Add n now (gauges (reg w) ! i)")
  have v: "val g' = val (gauges (reg w) ! i) + n"
    using Gauge_Add_val [of n now "gauges (reg w) ! i"] g by simp
  from False assms g v show ?thesis
    by (simp add: Add_def deref_def)
qed

lemma Val_valid:
  "i < length (gauges (reg w)) \<Longrightarrow> Val (Some i) w = Inr (val (gauges (reg w) ! i))"
  by (simp add: Val_def deref_def Gauge_Val_def)

text \<open>
  Claim C6: \<open>Gauge.Add(n)\<close> with \<open>n \<noteq> 0\<close> adds \<open>n\<close> to the value and offers the new
  value to the delta gate first. The throttle is called, with that value, only if the
  gate lets it through; if the gate refuses, the throttle (timer, pending slot and all)
  is exactly as before and no runner is started.
\<close>

theorem Add_asks_delta_gate_first:
  assumes "n \<noteq> 0"
  shows "val (fst (Gauge_Add n now g)) = val g + n
       \<and> oncePerDelta (fst (Gauge_Add n now g)) = fst (OncePerDelta_Do (val g + n) (oncePerDelta g))
       \<and> (if snd (OncePerDelta_Do (val g + n) (oncePerDelta g))
           then (oncePerDur (fst (Gauge_Add n now g)), snd (Gauge_Add n now g))
                  = OncePerDur_Do (val g + n) now (oncePerDur g)
           else oncePerDur (fst (Gauge_Add n now g)) = oncePerDur g
              \<and> snd (Gauge_Add n now g) = None)"
  using assms
  by (simp add: Gauge_Add_def Let_def split: prod.splits)

theorem Add_asks_delta_gate_first_witness:
  "(100 :: int64) \<noteq> 0
   \<and> val (fst (Gauge_Add 100 7 (gauges main_registry ! 1))) = 100
   \<and> \<not> snd (OncePerDelta_Do 100 (NewOncePerDelta 128))
   \<and> oncePerDur (fst (Gauge_Add 100 7 (gauges main_registry ! 1))) = NewOncePerDur 1000000000
   \<and> snd (Gauge_Add 100 7 (gauges main_registry ! 1)) = None"
proof -
  have h: "(100 :: int64) \<noteq> 0" by simp
  have g: "\<not> snd (OncePerDelta_Do 100 (NewOncePerDelta 128))"
    by (simp add: OncePerDelta_Do_def NewOncePerDelta_def)
  have e: "gauges main_registry ! 1
      = \<lparr>name = ''bytes_sent'', val = 0, oncePerDur = NewOncePerDur 1000000000,
         oncePerDelta = NewOncePerDelta 128, raddr = []\<rparr>"
    by (simp add: main_registry_def NewGauge_def New_def)
  note t = Add_asks_delta_gate_first [OF h, of 7 "gauges main_registry ! 1", unfolded e]
  show ?thesis unfolding e using t h g by simp
qed

text \<open>
  The earlier \<open>Gauge.Add\<close> has the other order: the same change, below the threshold,
  lands in the pending slot of the throttle and arms its timer.
\<close>

lemma Add_prior_touches_throttle_below_threshold:
  "\<not> snd (OncePerDelta_Do 100 (NewOncePerDelta 128))
   \<and> oncePerDur (fst (Gauge_Add_prior 100 7 (gauges main_registry ! 1)))
     = \<lparr>dur = 1000000000, last_run = 0, timer = Some \<lparr>due = 7, armed = True\<rparr>,
        pending = Some 100, isRunning = False\<rparr>"
  by (simp add: Gauge_Add_prior_def main_registry_def NewGauge_def New_def
      OncePerDelta_Do_def NewOncePerDelta_def
      OncePerDur_Do_def NewOncePerDur_def time_Add_def time_Before_def time_Sub_def
      AfterFunc_def timer_when_def minDuration_def maxDuration_def Let_def)

section \<open>Properties of the registry\<close>

lemma pubMetrics_loop_text:
  "fst (pubMetrics_loop ra clk i gs)
     = concat (map (\<lambda>g. StringWithVal g (val g) @ [CHR 0x0A])
                   (filter (\<lambda>g. raddr g = [] \<or> raddr g = ra) gs))"
  by (induction gs arbitrary: i) (simp_all add: Let_def Gauge_Val_def case_prod_beta)

lemma pubMetrics_loop_length:
  "length (snd (pubMetrics_loop ra clk i gs)) = length gs"
  by (induction gs arbitrary: i) (simp_all add: Let_def case_prod_beta)

lemma pubMetrics_loop_nth:
  "k < length gs \<Longrightarrow>
   snd (pubMetrics_loop ra clk i gs) ! k
     = (gs ! k)\<lparr>oncePerDur := OncePerDur_Reset (clk (i + k)) (oncePerDur (gs ! k)),
                oncePerDelta := OncePerDelta_Reset (val (gs ! k)) (oncePerDelta (gs ! k))\<rparr>"
proof (induction gs arbitrary: i k)
  case Nil
  then show ?case by simp
next
  case (Cons g gs)
  show ?case
  proof (cases k)
    case 0
    then show ?thesis by (simp add: Let_def Gauge_Val_def case_prod_beta)
  next
    case (Suc k')
    with Cons.prems have "k' < length gs" by simp
    from Cons.IH [OF this, of "Suc i"] Suc show ?thesis
      by (simp add: Let_def case_prod_beta)
  qed
qed

lemma poll_A_eval:
  "pubMetrics ''A'' (fixed_clock 50) poll_world
   = (None,
      \<lparr>reg = \<lparr>edges = [(''A'', 1), (''B'', 2)],
              gauges =
                [\<lparr>name = ''G1'', val = 5,
                  oncePerDur = \<lparr>dur = 10, last_run = 50, timer = None, pending = None,
                                 isRunning = False\<rparr>,
                  oncePerDelta = \<lparr>delta = 0, lastVal = 5\<rparr>, raddr = []\<rparr>,
                 \<lparr>name = ''G2'', val = 3,
                  oncePerDur = \<lparr>dur = 10, last_run = 50, timer = None, pending = None,
                                 isRunning = False\<rparr>,
                  oncePerDelta = \<lparr>delta = 0, lastVal = 3\<rparr>, raddr = ''A''\<rparr>,
                 \<lparr>name = ''G3'', val = 7,
                  oncePerDur = \<lparr>dur = 10, last_run = 50, timer = None, pending = None,
                                 isRunning = False\<rparr>,
                  oncePerDelta = \<lparr>delta = 100, lastVal = 7\<rparr>, raddr = ''B''\<rparr>]\<rparr>,
      out = no_messages(1 := [(''.metrics'', ''G1=5'' @ [CHR 0x0A] @ ''G2=3'' @ [CHR 0x0A])]),
      spawned = []\<rparr>)"
  by (simp add: pubMetrics_def poll_world_def fixed_clock_def Gauge_Val_def StringWithVal_def
      format_int64_def digits.simps OncePerDur_Reset_def OncePerDelta_Reset_def NewOncePerDur_def
      edge_Pub_def metricsSubject_def no_messages_def Let_def)

text \<open>
  Claim C4 says that a poll resets the gates of exactly the gauges it dumps and leaves
  the gate of every gauge of another scope as it was. The code resets every gauge of
  the registry: after a poll from scope \<open>A\<close> the gauge \<open>G3\<close> of scope \<open>B\<close>, which is not in
  the dump, has its delta gate moved from 0 to 7 and its throttle rebased to the time of
  the poll.
\<close>

theorem poll_resets_gauge_of_other_scope:
  "raddr (gauges (reg poll_world) ! 2) = ''B''
   \<and> oncePerDelta (gauges (reg poll_world) ! 2) = \<lparr>delta = 100, lastVal = 0\<rparr>
   \<and> oncePerDelta (gauges (reg (snd (pubMetrics ''A'' (fixed_clock 50) poll_world))) ! 2)
       = \<lparr>delta = 100, lastVal = 7\<rparr>
   \<and> last_run (oncePerDur (gauges (reg poll_world) ! 2)) = 0
   \<and> last_run (oncePerDur (gauges (reg (snd (pubMetrics ''A'' (fixed_clock 50) poll_world))) ! 2))
       = 50"
  unfolding poll_A_eval by (simp add: poll_world_def NewOncePerDur_def)

text \<open>
  Claim C4, amended: a poll from scope \<open>s\<close>, with a channel attached under \<open>s\<close>,
  publishes to that channel, and to no other, exactly one payload: the lines
  \<open>name=value\<close>, each ended by a newline, of the gauges whose scope is empty or \<open>s\<close>, in
  the order of registration. It resets the delta gate (to the value it read) and the
  throttle of every gauge of the registry, whatever its scope, and changes nothing else
  of a gauge.
\<close>

theorem poll_dumps_visible_and_resets_every_gauge:
  assumes "map_of (edges (reg w)) s = Some e"
  shows "fst (pubMetrics s clk w) = None
       \<and> out (snd (pubMetrics s clk w))
           = (out w)(e := out w e @
               [(metricsSubject,
                 concat (map (\<lambda>g. StringWithVal g (val g) @ [CHR 0x0A])
                             (filter (\<lambda>g. raddr g = [] \<or> raddr g = s) (gauges (reg w)))))])
       \<and> edges (reg (snd (pubMetrics s clk w))) = edges (reg w)
       \<and> length (gauges (reg (snd (pubMetrics s clk w)))) = length (gauges (reg w))
       \<and> (\<forall>i < length (gauges (reg w)).
            gauges (reg (snd (pubMetrics s clk w))) ! i
              = (gauges (reg w) ! i)
                  \<lparr>oncePerDur := OncePerDur_Reset (clk i) (oncePerDur (gauges (reg w) ! i)),
                   oncePerDelta := OncePerDelta_Reset (val (gauges (reg w) ! i))
                                     (oncePerDelta (gauges (reg w) ! i))\<rparr>)"
proof -
  obtain b gs' where l: "pubMetrics_loop s clk 0 (gauges (reg w)) = (b, gs')"
    by (cases "pubMetrics_loop s clk 0 (gauges (reg w))")
  have b: "b = concat (map (\<lambda>g. StringWithVal g (val g) @ [CHR 0x0A])
                             (filter (\<lambda>g. raddr g = [] \<or> raddr g = s) (gauges (reg w))))"
    using pubMetrics_loop_text [of s clk 0 "gauges (reg w)"] l by simp
  have len: "length gs' = length (gauges (reg w))"
    using pubMetrics_loop_length [of s clk 0 "gauges (reg w)"] l by simp
  have nth: "\<forall>i < length (gauges (reg w)). gs' ! i
              = (gauges (reg w) ! i)
                  \<lparr>oncePerDur := OncePerDur_Reset (clk i) (oncePerDur (gauges (reg w) ! i)),
                   oncePerDelta := OncePerDelta_Reset (val (gauges (reg w) ! i))
                                     (oncePerDelta (gauges (reg w) ! i))\<rparr>"
    using pubMetrics_loop_nth [of _ "gauges (reg w)" s clk 0] l by simp
  have p: "pubMetrics s clk w
      = (None, w\<lparr>reg := (reg w)\<lparr>gauges := gs'\<rparr>,
                  out := edge_Pub e metricsSubject b (out w)\<rparr>)"
    using assms l by (simp add: pubMetrics_def)
  show ?thesis unfolding p using b len nth by (simp add: edge_Pub_def)
qed

theorem poll_dumps_visible_and_resets_every_gauge_witness:
  "map_of (edges (reg poll_world)) ''A'' = Some 1
   \<and> fst (pubMetrics ''A'' (fixed_clock 50) poll_world) = None
   \<and> out (snd (pubMetrics ''A'' (fixed_clock 50) poll_world)) 1
       = [(''.metrics'', ''G1=5'' @ [CHR 0x0A] @ ''G2=3'' @ [CHR 0x0A])]
   \<and> out (snd (pubMetrics ''A'' (fixed_clock 50) poll_world)) 2 = []
   \<and> length (gauges (reg (snd (pubMetrics ''A'' (fixed_clock 50) poll_world)))) = 3
   \<and> lastVal (oncePerDelta (gauges (reg (snd (pubMetrics ''A'' (fixed_clock 50) poll_world))) ! 2))
       = 7"
proof -
  have h: "map_of (edges (reg poll_world)) ''A'' = Some 1"
    by (simp add: poll_world_def)
  note t = poll_dumps_visible_and_resets_every_gauge [OF h, of "fixed_clock 50"]
  from t have a: "fst (pubMetrics ''A'' (fixed_clock 50) poll_world) = None" by blast
  from t have o: "out (snd (pubMetrics ''A'' (fixed_clock 50) poll_world))
           = (out poll_world)(1 := out poll_world 1 @
               [(metricsSubject,
                 concat (map (\<lambda>g. StringWithVal g (val g) @ [CHR 0x0A])
                             (filter (\<lambda>g. raddr g = [] \<or> raddr g = ''A'') (gauges (reg poll_world)))))])"
    by blast
  from t have l: "length (gauges (reg (snd (pubMetrics ''A'' (fixed_clock 50) poll_world))))
      = length (gauges (reg poll_world))" by blast
  from t have n: "\<forall>i < length (gauges (reg poll_world)).
            gauges (reg (snd (pubMetrics ''A'' (fixed_clock 50) poll_world))) ! i
              = (gauges (reg poll_world) ! i)
                  \<lparr>oncePerDur := OncePerDur_Reset (fixed_clock 50 i) (oncePerDur (gauges (reg poll_world) ! i)),
                   oncePerDelta := OncePerDelta_Reset (val (gauges (reg poll_world) ! i))
                                     (oncePerDelta (gauges (reg poll_world) ! i))\<rparr>"
    by blast
  have b: "out (snd (pubMetrics ''A'' (fixed_clock 50) poll_world)) 1
       = [(''.metrics'', ''G1=5'' @ [CHR 0x0A] @ ''G2=3'' @ [CHR 0x0A])]"
    unfolding o
    by (simp add: poll_world_def StringWithVal_def format_int64_def digits.simps
        metricsSubject_def no_messages_def)
  have c: "out (snd (pubMetrics ''A'' (fixed_clock 50) poll_world)) 2 = []"
    unfolding o by (simp add: poll_world_def no_messages_def)
  have d: "length (gauges (reg (snd (pubMetrics ''A'' (fixed_clock 50) poll_world)))) = 3"
    unfolding l by (simp add: poll_world_def)
  have "2 < length (gauges (reg poll_world))" by (simp add: poll_world_def)
  with n have "gauges (reg (snd (pubMetrics ''A'' (fixed_clock 50) poll_world))) ! 2
              = (gauges (reg poll_world) ! 2)
                  \<lparr>oncePerDur := OncePerDur_Reset (fixed_clock 50 2) (oncePerDur (gauges (reg poll_world) ! 2)),
                   oncePerDelta := OncePerDelta_Reset (val (gauges (reg poll_world) ! 2))
                                     (oncePerDelta (gauges (reg poll_world) ! 2))\<rparr>"
    by blast
  then have e: "lastVal (oncePerDelta (gauges (reg (snd (pubMetrics ''A'' (fixed_clock 50) poll_world))) ! 2))
       = 7"
    by (simp add: poll_world_def OncePerDelta_Reset_def)
  from h a b c d e show ?thesis by blast
qed

text \<open>
  Publishing to a scope with no channel: \<open>Metrics.pub\<close> looks the channel up and drops
  the payload when there is none; \<open>pubMetrics\<close> calls \<open>Pub\<close> on whatever the map gives.
\<close>

lemma pub_without_channel_drops:
  assumes "map_of (edges (reg w)) ra = None"
  shows "Metrics_pub ra payload w = w \<or> ra = []"
  using assms by (simp add: Metrics_pub_def)

lemma pub_broadcast_without_channels:
  assumes "edges (reg w) = []"
  shows "Metrics_pub [] payload w = w"
  using assms by (simp add: Metrics_pub_def)

text \<open>
  Claim C5 (publishing to a scope without a channel never panics, for a gauge's own
  publication and for the answer to a poll alike): where no channel is registered under
  a scope, a gauge's own publication to that scope is dropped and changes nothing, but
  the answer to a poll addressed to it panics on the \<open>nil\<close> map entry.
\<close>

theorem poll_answer_without_channel_panics:
  assumes "map_of (edges (reg w)) ra = None" and "raddr g = ra" and "ra \<noteq> []"
  shows "Gauge_pub g v w = w
       \<and> fst (pubMetrics ra clk w) = Some NilPointerDereference"
  using assms
  by (simp add: Gauge_pub_def Metrics_pub_def pubMetrics_def Let_def case_prod_beta)

text \<open>So it is once the channel of scope \<open>B\<close> has been detached.\<close>

theorem poll_answer_without_channel_panics_witness:
  "map_of (edges (reg (poll_world\<lparr>reg := detach 2 ''B'' (reg poll_world)\<rparr>))) ''B'' = None
   \<and> raddr (gauges (reg poll_world) ! 2) = ''B''
   \<and> ''B'' \<noteq> []
   \<and> Gauge_pub (gauges (reg poll_world) ! 2) 7 (poll_world\<lparr>reg := detach 2 ''B'' (reg poll_world)\<rparr>)
       = poll_world\<lparr>reg := detach 2 ''B'' (reg poll_world)\<rparr>
   \<and> fst (pubMetrics ''B'' (fixed_clock 50) (poll_world\<lparr>reg := detach 2 ''B'' (reg poll_world)\<rparr>))
       = Some NilPointerDereference"
proof -
  have d: "detach 2 ''B'' (reg poll_world) = (reg poll_world)\<lparr>edges := [(''A'', 1)]\<rparr>"
    by (simp add: detach_def poll_world_def)
  have a: "map_of (edges (reg (poll_world\<lparr>reg := detach 2 ''B'' (reg poll_world)\<rparr>))) ''B'' = None"
    unfolding d by simp
  have b: "raddr (gauges (reg poll_world) ! 2) = ''B''"
    by (simp add: poll_world_def)
  have c: "''B'' \<noteq> []" by simp
  from poll_answer_without_channel_panics [OF a b c, of 7 "fixed_clock 50"] a b c
  show ?thesis by blast
qed

section \<open>Properties of the adapters\<close>

text \<open>
  Claim C7: for a request through \<open>InFlightMiddleware\<close> on gauge \<open>i\<close>, with any inner
  handler that does not itself change that gauge's value: the handler is entered in a
  world where \<open>Val()\<close> reads one more (in \<open>int64\<close>) than before the request; the
  decrement runs on the world the handler leaves, whether it returned or panicked; the
  middleware ends the way the handler ended; and afterwards \<open>Val()\<close> reads what it read
  before the request.
\<close>

theorem InFlightMiddleware_balanced:
  assumes valid: "i < length (gauges (reg w))"
    and keeps: "leaves_gauge i next"
  shows "\<exists>w1 w3. Inc (Some i) now1 w = Inr w1
           \<and> Val (Some i) w1 = Inr (val (gauges (reg w) ! i) + 1)
           \<and> Dec (Some i) now2 (snd (next w1)) = Inr w3
           \<and> InFlightMiddleware (Some i) next now1 now2 w = (fst (next w1), w3)
           \<and> Val (Some i) w3 = Inr (val (gauges (reg w) ! i))"
proof -
  from Add_valid [OF valid, of 1 now1] obtain w1 where
    w1: "Add (Some i) 1 now1 w = Inr w1"
    and l1: "length (gauges (reg w1)) = length (gauges (reg w))"
    and v1: "val (gauges (reg w1) ! i) = val (gauges (reg w) ! i) + 1"
    by blast
  from valid l1 have valid1: "i < length (gauges (reg w1))" by simp
  obtain r w2 where n: "next w1 = (r, w2)" by (cases "next w1")
  from keeps valid1 n have valid2: "i < length (gauges (reg w2))"
    and v2: "val (gauges (reg w2) ! i) = val (gauges (reg w1) ! i)"
    by (auto simp: leaves_gauge_def dest!: spec [of _ w1])
  from Add_valid [OF valid2, of "- 1" now2] obtain w3 where
    w3: "Add (Some i) (- 1) now2 w2 = Inr w3"
    and l3: "length (gauges (reg w3)) = length (gauges (reg w2))"
    and v3: "val (gauges (reg w3) ! i) = val (gauges (reg w2) ! i) + (- 1)"
    by blast
  from valid2 l3 have valid3: "i < length (gauges (reg w3))" by simp
  have a: "Inc (Some i) now1 w = Inr w1" using w1 by (simp add: Inc_def)
  have b: "Val (Some i) w1 = Inr (val (gauges (reg w) ! i) + 1)"
    using Val_valid [OF valid1] v1 by simp
  have c: "Dec (Some i) now2 (snd (next w1)) = Inr w3" using w3 n by (simp add: Dec_def)
  have d: "InFlightMiddleware (Some i) next now1 now2 w = (fst (next w1), w3)"
    using a c n by (simp add: InFlightMiddleware_def)
  have e: "Val (Some i) w3 = Inr (val (gauges (reg w) ! i))"
    using Val_valid [OF valid3] v3 v2 v1 by simp
  from a b c d e show ?thesis by blast
qed

theorem InFlightMiddleware_balanced_witness:
  "0 < length (gauges (reg main_world))
   \<and> leaves_gauge 0 (Pair (Some HandlerPanic))
   \<and> Val (Some 0) main_world = Inr 0
   \<and> (\<exists>w1 w3.
         Inc (Some 0) 5 main_world = Inr w1
       \<and> Val (Some 0) w1 = Inr 1
       \<and> InFlightMiddleware (Some 0) (Pair (Some HandlerPanic)) 5 6 main_world
            = (Some HandlerPanic, w3)
       \<and> Val (Some 0) w3 = Inr 0)"
proof -
  have h1: "0 < length (gauges (reg main_world))"
    by (simp add: main_world_def main_registry_def NewGauge_def New_def)
  have h2: "leaves_gauge 0 (Pair (Some HandlerPanic))"
    by (simp add: leaves_gauge_def)
  have v0: "val (gauges (reg main_world) ! 0) = 0"
    by (simp add: main_world_def main_registry_def NewGauge_def New_def)
  have v: "Val (Some 0) main_world = Inr 0"
    using Val_valid [OF h1] v0 by simp
  from InFlightMiddleware_balanced [OF h1 h2, of 5 6] v0 h1 h2 v
  show ?thesis by auto
qed

lemma two_Adds:
  assumes x: "x < length (gauges (reg w))" and y: "y < length (gauges (reg w))" and xy: "x \<noteq> y"
  shows "\<exists>w2. (case Add (Some x) n now1 w of Inl p \<Rightarrow> Inl p
                    | Inr w1 \<Rightarrow> (case Add (Some y) n now2 w1 of Inl p \<Rightarrow> Inl p
                                 | Inr w2 \<Rightarrow> Inr ((n, err), w2))) = Inr ((n, err), w2)
            \<and> length (gauges (reg w2)) = length (gauges (reg w))
            \<and> val (gauges (reg w2) ! x) = val (gauges (reg w) ! x) + n
            \<and> val (gauges (reg w2) ! y) = val (gauges (reg w) ! y) + n
            \<and> (\<forall>j. j \<noteq> x \<and> j \<noteq> y \<longrightarrow> gauges (reg w2) ! j = gauges (reg w) ! j)"
proof -
  from Add_valid [OF x, of n now1] obtain w1 where
    w1: "Add (Some x) n now1 w = Inr w1"
    and l1: "length (gauges (reg w1)) = length (gauges (reg w))"
    and v1: "val (gauges (reg w1) ! x) = val (gauges (reg w) ! x) + n"
    and o1: "\<forall>j. j \<noteq> x \<longrightarrow> gauges (reg w1) ! j = gauges (reg w) ! j"
    by blast
  from y l1 have y1: "y < length (gauges (reg w1))" by simp
  from Add_valid [OF y1, of n now2] obtain w2 where
    w2: "Add (Some y) n now2 w1 = Inr w2"
    and l2: "length (gauges (reg w2)) = length (gauges (reg w1))"
    and v2: "val (gauges (reg w2) ! y) = val (gauges (reg w1) ! y) + n"
    and o2: "\<forall>j. j \<noteq> y \<longrightarrow> gauges (reg w2) ! j = gauges (reg w1) ! j"
    by blast
  from xy o2 v1 have vx: "val (gauges (reg w2) ! x) = val (gauges (reg w) ! x) + n" by simp
  from xy o1 v2 have vy: "val (gauges (reg w2) ! y) = val (gauges (reg w) ! y) + n" by simp
  from o1 o2 have oth: "\<forall>j. j \<noteq> x \<and> j \<noteq> y \<longrightarrow> gauges (reg w2) ! j = gauges (reg w) ! j"
    by simp
  from w1 w2 l1 l2 vx vy oth show ?thesis by simp
qed

lemma Write_counts:
  assumes "sentTotal mc = Some a" and "sentThis mc = Some b" and "a \<noteq> b"
    and "a < length (gauges (reg w))" and "b < length (gauges (reg w))"
  shows "\<exists>w'. metricsConn_Write (n, err) now1 now2 mc w = Inr ((n, err), w')
            \<and> length (gauges (reg w')) = length (gauges (reg w))
            \<and> val (gauges (reg w') ! a) = val (gauges (reg w) ! a) + n
            \<and> val (gauges (reg w') ! b) = val (gauges (reg w) ! b) + n
            \<and> (\<forall>j. j \<noteq> a \<and> j \<noteq> b \<longrightarrow> gauges (reg w') ! j = gauges (reg w) ! j)"
  using two_Adds [where n = n and ?now1.0 = now1 and ?now2.0 = now2 and err = err, OF assms(4) assms(5) assms(3)]
  unfolding metricsConn_Write_def assms(1) assms(2) fst_conv .

lemma Read_counts:
  assumes "receivedTotal mc = Some c" and "receivedThis mc = Some d" and "c \<noteq> d"
    and "c < length (gauges (reg w))" and "d < length (gauges (reg w))"
  shows "\<exists>w'. metricsConn_Read (n, err) now1 now2 mc w = Inr ((n, err), w')
            \<and> length (gauges (reg w')) = length (gauges (reg w))
            \<and> val (gauges (reg w') ! c) = val (gauges (reg w) ! c) + n
            \<and> val (gauges (reg w') ! d) = val (gauges (reg w) ! d) + n
            \<and> (\<forall>j. j \<noteq> c \<and> j \<noteq> d \<longrightarrow> gauges (reg w') ! j = gauges (reg w) ! j)"
  using two_Adds [where n = n and ?now1.0 = now1 and ?now2.0 = now2 and err = err, OF assms(4) assms(5) assms(3)]
  unfolding metricsConn_Read_def assms(1) assms(2) fst_conv .

text \<open>
  Claim C8: on a wrapped connection whose four gauges are four different gauges, a
  \<open>Write\<close> that transfers \<open>n\<close> bytes adds \<open>n\<close> (in \<open>int64\<close>) to the server-wide and to
  the connection's own "sent" gauge and changes no other gauge; a \<open>Read\<close> does the same
  on the two "received" gauges and so leaves both "sent" gauges alone; and two writes
  of \<open>n\<close> and \<open>n'\<close> bytes raise each "sent" gauge by \<open>n + n'\<close> and no "received" gauge.
\<close>

theorem Write_Read_count_bytes_once:
  assumes refs: "sentTotal mc = Some a" "sentThis mc = Some b"
                "receivedTotal mc = Some c" "receivedThis mc = Some d"
    and dist: "distinct [a, b, c, d]"
    and valid: "a < length (gauges (reg w))" "b < length (gauges (reg w))"
               "c < length (gauges (reg w))" "d < length (gauges (reg w))"
  shows "(\<exists>w'. metricsConn_Write (n, err) now1 now2 mc w = Inr ((n, err), w')
            \<and> val (gauges (reg w') ! a) = val (gauges (reg w) ! a) + n
            \<and> val (gauges (reg w') ! b) = val (gauges (reg w) ! b) + n
            \<and> (\<forall>j. j \<noteq> a \<and> j \<noteq> b \<longrightarrow> gauges (reg w') ! j = gauges (reg w) ! j))
       \<and> (\<exists>w'. metricsConn_Read (n, err) now1 now2 mc w = Inr ((n, err), w')
            \<and> val (gauges (reg w') ! c) = val (gauges (reg w) ! c) + n
            \<and> val (gauges (reg w') ! d) = val (gauges (reg w) ! d) + n
            \<and> (\<forall>j. j \<noteq> c \<and> j \<noteq> d \<longrightarrow> gauges (reg w') ! j = gauges (reg w) ! j))
       \<and> (\<exists>w1 w2. metricsConn_Write (n, err) now1 now2 mc w = Inr ((n, err), w1)
            \<and> metricsConn_Write (n', err') now3 now4 mc w1 = Inr ((n', err'), w2)
            \<and> val (gauges (reg w2) ! a) = val (gauges (reg w) ! a) + n + n'
            \<and> val (gauges (reg w2) ! b) = val (gauges (reg w) ! b) + n + n'
            \<and> val (gauges (reg w2) ! c) = val (gauges (reg w) ! c)
            \<and> val (gauges (reg w2) ! d) = val (gauges (reg w) ! d))"
proof -
  from dist valid have ab: "a \<noteq> b" "a < length (gauges (reg w))" "b < length (gauges (reg w))"
    by simp_all
  from dist valid have cd: "c \<noteq> d" "c < length (gauges (reg w))" "d < length (gauges (reg w))"
    by simp_all
  from dist have cross: "c \<noteq> a" "c \<noteq> b" "d \<noteq> a" "d \<noteq> b" by auto
  from Write_counts [where n = n and err = err and ?now1.0 = now1 and ?now2.0 = now2, OF refs(1) refs(2) ab] obtain w1 where
    w1: "metricsConn_Write (n, err) now1 now2 mc w = Inr ((n, err), w1)"
    and l1: "length (gauges (reg w1)) = length (gauges (reg w))"
    and a1: "val (gauges (reg w1) ! a) = val (gauges (reg w) ! a) + n"
    and b1: "val (gauges (reg w1) ! b) = val (gauges (reg w) ! b) + n"
    and o1: "\<forall>j. j \<noteq> a \<and> j \<noteq> b \<longrightarrow> gauges (reg w1) ! j = gauges (reg w) ! j"
    by blast
  from ab l1 have ab1: "a < length (gauges (reg w1))" "b < length (gauges (reg w1))" by simp_all
  from Write_counts [where n = n' and err = err' and ?now1.0 = now3 and ?now2.0 = now4, OF refs(1) refs(2) ab(1) ab1] obtain w2 where
    w2: "metricsConn_Write (n', err') now3 now4 mc w1 = Inr ((n', err'), w2)"
    and a2: "val (gauges (reg w2) ! a) = val (gauges (reg w1) ! a) + n'"
    and b2: "val (gauges (reg w2) ! b) = val (gauges (reg w1) ! b) + n'"
    and o2: "\<forall>j. j \<noteq> a \<and> j \<noteq> b \<longrightarrow> gauges (reg w2) ! j = gauges (reg w1) ! j"
    by blast
  have wr: "\<exists>w'. metricsConn_Write (n, err) now1 now2 mc w = Inr ((n, err), w')
            \<and> val (gauges (reg w') ! a) = val (gauges (reg w) ! a) + n
            \<and> val (gauges (reg w') ! b) = val (gauges (reg w) ! b) + n
            \<and> (\<forall>j. j \<noteq> a \<and> j \<noteq> b \<longrightarrow> gauges (reg w') ! j = gauges (reg w) ! j)"
    using w1 a1 b1 o1 by blast
  have rd: "\<exists>w'. metricsConn_Read (n, err) now1 now2 mc w = Inr ((n, err), w')
            \<and> val (gauges (reg w') ! c) = val (gauges (reg w) ! c) + n
            \<and> val (gauges (reg w') ! d) = val (gauges (reg w) ! d) + n
            \<and> (\<forall>j. j \<noteq> c \<and> j \<noteq> d \<longrightarrow> gauges (reg w') ! j = gauges (reg w) ! j)"
    using Read_counts [where n = n and err = err and ?now1.0 = now1 and ?now2.0 = now2, OF refs(3) refs(4) cd] by blast
  have both: "\<exists>w1 w2. metricsConn_Write (n, err) now1 now2 mc w = Inr ((n, err), w1)
            \<and> metricsConn_Write (n', err') now3 now4 mc w1 = Inr ((n', err'), w2)
            \<and> val (gauges (reg w2) ! a) = val (gauges (reg w) ! a) + n + n'
            \<and> val (gauges (reg w2) ! b) = val (gauges (reg w) ! b) + n + n'
            \<and> val (gauges (reg w2) ! c) = val (gauges (reg w) ! c)
            \<and> val (gauges (reg w2) ! d) = val (gauges (reg w) ! d)"
    using w1 w2 a1 a2 b1 b2 o1 o2 cross by auto
  from wr rd both show ?thesis by blast
qed

lemma Accept_main:
  "metricsListener_Accept (Some \<lparr>RemoteAddr = ''10.0.0.7:4242''\<rparr>, None) main_listener main_world
     = Inr ((accepted_conn, None), accepted_world)"
  by (simp add: metricsListener_Accept_def main_listener_def main_connGauges_def main_world_def
      main_registry_def NewGauge_def New_def Let_def accepted_conn_def accepted_world_def)

lemma accepted_world_gauges:
  "length (gauges (reg accepted_world)) = 5"
  "val (gauges (reg accepted_world) ! 1) = 0"
  "val (gauges (reg accepted_world) ! Suc 0) = 0"
  "val (gauges (reg accepted_world) ! 2) = 0"
  "val (gauges (reg accepted_world) ! 3) = 0"
  "val (gauges (reg accepted_world) ! 4) = 0"
  by (simp_all add: accepted_world_def main_connGauges_def main_world_def
      main_registry_def NewGauge_def New_def Let_def)

theorem Write_Read_count_bytes_once_witness:
  "sentTotal accepted_conn = Some 1 \<and> sentThis accepted_conn = Some 3
   \<and> receivedTotal accepted_conn = Some 2 \<and> receivedThis accepted_conn = Some 4
   \<and> distinct [1, 3, 2, 4 :: nat]
   \<and> 1 < length (gauges (reg accepted_world)) \<and> 3 < length (gauges (reg accepted_world))
   \<and> 2 < length (gauges (reg accepted_world)) \<and> 4 < length (gauges (reg accepted_world))
   \<and> (\<exists>w1 w2. metricsConn_Write (100, None :: unit option) 5 6 accepted_conn accepted_world = Inr ((100, None :: unit option), w1)
         \<and> metricsConn_Write (50, None :: unit option) 7 8 accepted_conn w1 = Inr ((50, None :: unit option), w2)
         \<and> val (gauges (reg w2) ! 1) = 150
         \<and> val (gauges (reg w2) ! 3) = 150
         \<and> val (gauges (reg w2) ! 2) = 0
         \<and> val (gauges (reg w2) ! 4) = 0)"
proof -
  have r: "sentTotal accepted_conn = Some 1" "sentThis accepted_conn = Some 3"
    "receivedTotal accepted_conn = Some 2" "receivedThis accepted_conn = Some 4"
    by (simp_all add: accepted_conn_def)
  have d: "distinct [1, 3, 2, 4 :: nat]" by simp
  have v: "1 < length (gauges (reg accepted_world))" "3 < length (gauges (reg accepted_world))"
    "2 < length (gauges (reg accepted_world))" "4 < length (gauges (reg accepted_world))"
    by (simp_all add: accepted_world_gauges)
  note t = Write_Read_count_bytes_once [OF r d v,
      where n = 100 and n' = 50 and err = "None :: unit option" and err' = "None :: unit option"
        and ?now1.0 = 5 and ?now2.0 = 6 and ?now3.0 = 7 and ?now4.0 = 8]
  then obtain w1 w2
    where "metricsConn_Write (100, None :: unit option) 5 6 accepted_conn accepted_world = Inr ((100, None :: unit option), w1)"
      and "metricsConn_Write (50, None :: unit option) 7 8 accepted_conn w1 = Inr ((50, None :: unit option), w2)"
      and "val (gauges (reg w2) ! 1) = val (gauges (reg accepted_world) ! 1) + 100 + 50"
      and "val (gauges (reg w2) ! 3) = val (gauges (reg accepted_world) ! 3) + 100 + 50"
      and "val (gauges (reg w2) ! 2) = val (gauges (reg accepted_world) ! 2)"
      and "val (gauges (reg w2) ! 4) = val (gauges (reg accepted_world) ! 4)"
    by blast
  then have "\<exists>w1 w2. metricsConn_Write (100, None :: unit option) 5 6 accepted_conn accepted_world = Inr ((100, None :: unit option), w1)
         \<and> metricsConn_Write (50, None :: unit option) 7 8 accepted_conn w1 = Inr ((50, None :: unit option), w2)
         \<and> val (gauges (reg w2) ! 1) = 150
         \<and> val (gauges (reg w2) ! 3) = 150
         \<and> val (gauges (reg w2) ! 2) = 0
         \<and> val (gauges (reg w2) ! 4) = 0"
    by (auto simp: accepted_world_gauges)
  with r d v show ?thesis by blast
qed

text \<open>
  Claim C9 (when the wrapped listener's \<open>Accept\<close> fails and returns a \<open>nil\<close> connection,
  the instrumented \<open>Accept\<close> returns the error and calls nothing on the connection): the
  code calls \<open>conn.RemoteAddr()\<close> before it looks at the error, which panics on the
  \<open>nil\<close> connection.
\<close>

theorem Accept_panics_on_failed_accept:
  "metricsListener_Accept (None, Some err) mln w = Inl NilPointerDereference"
  by (simp add: metricsListener_Accept_def)

text \<open>The earlier \<open>Accept\<close> does return the error, around a \<open>nil\<close> connection.\<close>

lemma Accept_prior_returns_error:
  "metricsListener_Accept_prior (None, Some err) sent received
     = (\<lparr>prior_Conn = None, prior_sent = sent, prior_received = received\<rparr>, Some err)"
  by (simp add: metricsListener_Accept_prior_def)

end
